theory Spec2Isabelle
  imports Complex_Main "HOL-Library.Word"
begin

section \<open>SlidingWindowTransform (openbr/plugins/imgproc/slidingwindow.cpp)\<close>

text \<open>
  A shallow embedding of the sliding-window detector. Conventions:
  \<^item> C \<open>int\<close> values are HOL integers and \<open>float\<close>/\<open>double\<close> values are HOL reals: the
    arithmetic is exact, so the model describes the runs in which no intermediate value
    leaves the \<open>int\<close> range and floating-point rounding does not change a comparison;
  \<^item> a loop that may run forever is a \<open>partial_function\<close> in the option monad: \<open>None\<close> is
    a loop that never returns;
  \<^item> a failed OpenCV assertion, a write past the end of the scratch buffer and a read past
    the end of a vector are values of type \<open>error\<close> (\<open>Inl\<close>);
  \<^item> the functions of OpenCV and of other OpenBR files that \<open>project\<close> calls are fields of
    the record \<open>externals\<close>: the theorems hold for every choice of them, under the
    hypotheses they state;
  \<^item> a factor of 0 can only come from \<open>scaleFactor = 0\<close>; dividing by it is \<open>x / 0 = 0\<close> in
    HOL, and no theorem below depends on that case.
\<close>

subsection \<open>Data\<close>

type_synonym uchar = "8 word"

datatype Size = Size (width: int) (height: int)

datatype Rect = Rect (rect_x: int) (rect_y: int) (rect_width: int) (rect_height: int)

text \<open>A single-channel 8-bit \<open>cv::Mat\<close>: pixel \<open>(x, y)\<close> is \<open>data ! (y * cols + x)\<close>.\<close>

datatype Mat = Mat (rows: int) (cols: int) (data: "uchar list")

datatype error = CvAssert | BufferOverrun | IndexOutOfRange

text \<open>\<open>br::File\<close> is declared outside this source file. The model keeps the metadata keys that
  \<open>project\<close> reads and writes: the flag read by \<open>getBool("enrollAll")\<close>, the values stored under
  \<open>"Confidence"\<close> and \<open>"Face"\<close>, and the list that \<open>appendRect\<close> extends.\<close>

record File =
  name :: string
  enrollAll :: bool
  Confidence :: "real option"
  Rects :: "Rect list"
  Face :: "Rect option"

text \<open>\<open>br::Template\<close>: the member \<open>file\<close> (here \<open>tfile\<close>) and a list of matrices (\<open>t.size()\<close>,
  \<open>t[i]\<close>, \<open>t.empty()\<close>).\<close>

datatype Template = Template (tfile: File) (mats: "Mat list")

record Classifier =
  windowSize :: Size
  classify :: "Mat \<Rightarrow> real"

record SlidingWindowTransform =
  classifier :: Classifier
  minSize :: int
  maxSize :: int
  scaleFactor :: real
  minNeighbors :: int
  eps :: real
  cascadeDir :: string

text \<open>What \<open>project\<close> calls outside this file: \<open>cv::resize\<close> (the value it writes at pixel
  \<open>(x, y)\<close> of a destination of the given size), \<open>cv::groupRectangles\<close> (its three vectors after
  the call), \<open>OpenCVUtils::cvtUChar\<close>, and the contents of freshly allocated memory.\<close>

record externals =
  resize :: "Mat \<Rightarrow> Size \<Rightarrow> int \<Rightarrow> int \<Rightarrow> uchar"
  groupRectangles :: "Rect list \<Rightarrow> int list \<Rightarrow> real list \<Rightarrow> int \<Rightarrow> real
                       \<Rightarrow> Rect list \<times> int list \<times> real list"
  cvtUChar :: "Mat \<Rightarrow> Mat"
  uninitialised :: "nat \<Rightarrow> uchar"

text \<open>The three parallel vectors \<open>rects\<close>, \<open>rejectLevels\<close>, \<open>levelWeights\<close> of \<open>project\<close>.\<close>

record Vectors =
  rects :: "Rect list"
  rejectLevels :: "int list"
  levelWeights :: "real list"

definition no_vectors :: Vectors where
  "no_vectors = \<lparr>rects = [], rejectLevels = [], levelWeights = []\<rparr>"

subsection \<open>Rounding and sizes at one scale\<close>

text \<open>\<open>cvRound\<close>: to the nearest integer, ties to the even one (the default rounding mode).\<close>

definition cvRound :: "real \<Rightarrow> int" where
  "cvRound v = (let f = \<lfloor>v\<rfloor>; d = v - of_int f in
      if d < 1 / 2 then f else if 1 / 2 < d then f + 1 else if even f then f else f + 1)"

definition windowSize_at :: "Classifier \<Rightarrow> real \<Rightarrow> Size" where
  "windowSize_at c factor =
     Size (cvRound (of_int (width (windowSize c)) * factor))
          (cvRound (of_int (height (windowSize c)) * factor))"

definition scaledImageSize :: "Mat \<Rightarrow> real \<Rightarrow> Size" where
  "scaledImageSize img factor =
     Size (cvRound (of_int (cols img) / factor)) (cvRound (of_int (rows img) / factor))"

definition processingRectSize :: "Classifier \<Rightarrow> Mat \<Rightarrow> real \<Rightarrow> Size" where
  "processingRectSize c img factor =
     Size (width (scaledImageSize img factor) - width (windowSize c))
          (height (scaledImageSize img factor) - height (windowSize c))"

definition yStep :: "real \<Rightarrow> int" where
  "yStep factor = (if factor > 2 then 1 else 2)"

text \<open>\<open>maxObjectSize\<close> as resolved before the scale loop (lines 92-94).\<close>

definition maxObjectSize :: "SlidingWindowTransform \<Rightarrow> Mat \<Rightarrow> Size" where
  "maxObjectSize T img =
     (if maxSize T \<le> 0 \<or> maxSize T \<le> 0 then Size (cols img) (rows img)
      else Size (maxSize T) (maxSize T))"

definition minObjectSize :: "SlidingWindowTransform \<Rightarrow> Size" where
  "minObjectSize T = Size (minSize T) (minSize T)"

text \<open>The two \<open>break\<close> tests (lines 105-108) and the \<open>continue\<close> test (line 109).\<close>

definition breaks :: "SlidingWindowTransform \<Rightarrow> Mat \<Rightarrow> real \<Rightarrow> bool" where
  "breaks T img factor =
     (let ws = windowSize_at (classifier T) factor;
          prs = processingRectSize (classifier T) img factor;
          mx = maxObjectSize T img
      in (width prs \<le> 0 \<or> height prs \<le> 0) \<or> (width ws > width mx \<or> height ws > height mx))"

definition skips :: "SlidingWindowTransform \<Rightarrow> real \<Rightarrow> bool" where
  "skips T factor =
     (let ws = windowSize_at (classifier T) factor; mn = minObjectSize T
      in width ws < width mn \<or> height ws < height mn)"

subsection \<open>The scratch buffer, resampling and window extraction\<close>

text \<open>\<open>Mat imageBuffer(image.rows + 1, image.cols + 1, CV_8U)\<close>: allocated, not initialised.\<close>

definition imageBuffer :: "externals \<Rightarrow> Mat \<Rightarrow> uchar list" where
  "imageBuffer E img =
     map (uninitialised E) [0 ..< nat ((rows img + 1) * (cols img + 1))]"

text \<open>\<open>Mat scaledImage(scaledImageSize, CV_8U, imageBuffer.data)\<close> followed by \<open>resize\<close>: the
  resampled pixels are written row by row at the start of the buffer, the rest of the buffer
  is left as it was. \<open>cv::resize\<close> asserts a non-empty destination; a destination larger than
  the buffer is a write past its end.\<close>

definition resize_into :: "externals \<Rightarrow> Mat \<Rightarrow> uchar list \<Rightarrow> Size \<Rightarrow> error + uchar list" where
  "resize_into E img buf sz =
     (if width sz \<le> 0 \<or> height sz \<le> 0 then Inl CvAssert
      else if int (length buf) < width sz * height sz then Inl BufferOverrun
      else Inr (concat (map (\<lambda>j. map (\<lambda>i. resize E img sz (int i) (int j)) [0 ..< nat (width sz)])
                        [0 ..< nat (height sz)])
                @ drop (nat (width sz * height sz)) buf))"

text \<open>The header \<open>scaledImage\<close> over the buffer: a matrix of the scaled size whose pixels are
  the first \<open>width * height\<close> bytes of the buffer.\<close>

definition scaledImage :: "uchar list \<Rightarrow> Size \<Rightarrow> Mat" where
  "scaledImage buf sz = Mat (height sz) (width sz) (take (nat (width sz * height sz)) buf)"

text \<open>\<open>scaledImage(Rect(Point(x, y), size)).clone()\<close>: the region must lie inside the matrix
  (an OpenCV assertion otherwise); the copy is continuous.\<close>

definition clone_region :: "Mat \<Rightarrow> int \<Rightarrow> int \<Rightarrow> Size \<Rightarrow> Mat" where
  "clone_region m x y sz =
     Mat (height sz) (width sz)
       (concat (map (\<lambda>j. map (\<lambda>i. data m ! nat ((y + int j) * cols m + (x + int i)))
                           [0 ..< nat (width sz)])
                [0 ..< nat (height sz)]))"

definition window_at :: "Mat \<Rightarrow> int \<Rightarrow> int \<Rightarrow> Size \<Rightarrow> error + Mat" where
  "window_at m x y sz =
     (if 0 \<le> x \<and> 0 \<le> width sz \<and> x + width sz \<le> cols m
         \<and> 0 \<le> y \<and> 0 \<le> height sz \<and> y + height sz \<le> rows m
      then Inr (clone_region m x y sz)
      else Inl CvAssert)"

subsection \<open>The raster scan of one scale (lines 115-130)\<close>

definition candidate :: "Classifier \<Rightarrow> real \<Rightarrow> int \<Rightarrow> int \<Rightarrow> Rect" where
  "candidate c factor x y =
     Rect (cvRound (of_int x * factor)) (cvRound (of_int y * factor))
          (width (windowSize_at c factor)) (height (windowSize_at c factor))"

definition push_back :: "Vectors \<Rightarrow> Rect \<Rightarrow> int \<Rightarrow> real \<Rightarrow> Vectors" where
  "push_back v r l w =
     \<lparr>rects = rects v @ [r], rejectLevels = rejectLevels v @ [l],
      levelWeights = levelWeights v @ [w]\<rparr>"

text \<open>The body of the inner loop (lines 118-128) at \<open>(x, y)\<close>: it returns the value of \<open>x\<close> at
  the end of the body, before the increment \<open>x += yStep\<close>, and the vectors.\<close>

definition scan_window ::
  "Classifier \<Rightarrow> Mat \<Rightarrow> real \<Rightarrow> int \<Rightarrow> int \<Rightarrow> Vectors \<Rightarrow> error + int \<times> Vectors" where
  "scan_window c scaled factor y x v =
     (case window_at scaled x y (windowSize c) of
        Inl e \<Rightarrow> Inl e
      | Inr window \<Rightarrow>
          (let result = classify c window;
               v' = (if result > 0 then push_back v (candidate c factor x y) 1 result else v);
               x' = (if result = 0 then yStep factor else x)
           in Inr (x', v')))"

partial_function (option) x_loop ::
  "Classifier \<Rightarrow> Mat \<Rightarrow> real \<Rightarrow> Size \<Rightarrow> int \<Rightarrow> int \<Rightarrow> Vectors \<Rightarrow> (error + Vectors) option" where
  "x_loop c scaled factor prs y x v =
     (if x < width prs then
        (case scan_window c scaled factor y x v of
           Inl e \<Rightarrow> Some (Inl e)
         | Inr (x', v') \<Rightarrow> x_loop c scaled factor prs y (x' + yStep factor) v')
      else Some (Inr v))"

function y_loop ::
  "Classifier \<Rightarrow> Mat \<Rightarrow> real \<Rightarrow> Size \<Rightarrow> int \<Rightarrow> Vectors \<Rightarrow> (error + Vectors) option" where
  "y_loop c scaled factor prs y v =
     (if y < height prs then
        (case x_loop c scaled factor prs y 0 v of
           None \<Rightarrow> None
         | Some (Inl e) \<Rightarrow> Some (Inl e)
         | Some (Inr v') \<Rightarrow> y_loop c scaled factor prs (y + yStep factor) v')
      else Some (Inr v))"
  by pat_completeness auto
termination
  by (relation "measure (\<lambda>(c, scaled, factor, prs, y, v). nat (height prs - y))")
     (auto simp: yStep_def)

declare y_loop.simps [simp del]

subsection \<open>The scale loop (lines 98-131)\<close>

text \<open>Lines 112-130 at one factor: resample into the scratch buffer, then scan the rows. The
  result is the buffer after the resampling and the vectors after the scan.\<close>

definition scan_level ::
  "SlidingWindowTransform \<Rightarrow> externals \<Rightarrow> Mat \<Rightarrow> uchar list \<Rightarrow> real \<Rightarrow> Vectors
     \<Rightarrow> (error + uchar list \<times> Vectors) option" where
  "scan_level T E img buf factor v =
     (case resize_into E img buf (scaledImageSize img factor) of
        Inl e \<Rightarrow> Some (Inl e)
      | Inr buf' \<Rightarrow>
          (case y_loop (classifier T) (scaledImage buf' (scaledImageSize img factor))
                  factor (processingRectSize (classifier T) img factor) 0 v of
             None \<Rightarrow> None
           | Some (Inl e) \<Rightarrow> Some (Inl e)
           | Some (Inr v') \<Rightarrow> Some (Inr (buf', v'))))"

text \<open>The state of the loop is the contents of the scratch buffer, the factor and the three
  vectors. \<open>continue\<close> runs the loop's increment \<open>factor *= scaleFactor\<close>.\<close>

partial_function (option) scale_loop ::
  "SlidingWindowTransform \<Rightarrow> externals \<Rightarrow> Mat \<Rightarrow> uchar list \<Rightarrow> real \<Rightarrow> Vectors
     \<Rightarrow> (error + Vectors) option" where
  "scale_loop T E img buf factor v =
     (if breaks T img factor then Some (Inr v)
      else if skips T factor then scale_loop T E img buf (factor * scaleFactor T) v
      else
        (case scan_level T E img buf factor v of
           None \<Rightarrow> None
         | Some (Inl e) \<Rightarrow> Some (Inl e)
         | Some (Inr (buf', v')) \<Rightarrow> scale_loop T E img buf' (factor * scaleFactor T) v'))"

text \<open>The scanner: lines 87-131 for one converted image.\<close>

definition scan :: "SlidingWindowTransform \<Rightarrow> externals \<Rightarrow> Mat \<Rightarrow> (error + Vectors) option" where
  "scan T E img = scale_loop T E img (imageBuffer E img) 1 no_vectors"

subsection \<open>Output records (lines 133-148)\<close>

text \<open>Modelled from the spec: \<open>OpenCVUtils::fromRect\<close> is not in this source file; the spec
  attaches the detection's rectangle itself, with its integer origin and extent.\<close>

definition fromRect :: "Rect \<Rightarrow> Rect" where
  "fromRect r = r"

text \<open>The confidence of record \<open>j\<close> (lines 140-143). \<open>levelWeights[j]\<close> is read without a test
  of its own.\<close>

definition confidence_at :: "int list \<Rightarrow> real list \<Rightarrow> nat \<Rightarrow> error + real" where
  "confidence_at rl lw j =
     (if length rl > j then
        (if j < length lw then Inr (of_int (rl ! j) * lw ! j) else Inl IndexOutOfRange)
      else Inr 1)"

definition output_record :: "File \<Rightarrow> Mat \<Rightarrow> Rect \<Rightarrow> real \<Rightarrow> Template" where
  "output_record f img r conf =
     (let rect = fromRect r
      in Template (f\<lparr>Confidence := Some conf, Rects := Rects f @ [rect], Face := Some rect\<rparr>)
           [img])"

text \<open>The loop over \<open>j\<close>, run on the indices \<open>[0 ..< rects.size()]\<close>.\<close>

fun emit ::
  "File \<Rightarrow> Mat \<Rightarrow> Rect list \<Rightarrow> int list \<Rightarrow> real list \<Rightarrow> nat list \<Rightarrow> Template list
     \<Rightarrow> error + Template list" where
  "emit f img rs rl lw [] dst = Inr dst"
| "emit f img rs rl lw (j # js) dst =
     (case confidence_at rl lw j of
        Inl e \<Rightarrow> Inl e
      | Inr conf \<Rightarrow> emit f img rs rl lw js (dst @ [output_record f img (rs ! j) conf]))"

text \<open>The clustered rectangles with the fallback of lines 135-136.\<close>

definition with_fallback :: "bool \<Rightarrow> Mat \<Rightarrow> Rect list \<Rightarrow> Rect list" where
  "with_fallback enroll img rs =
     (if \<not> enroll \<and> rs = [] then rs @ [Rect 0 0 (cols img) (rows img)] else rs)"

text \<open>The body of the loop over the matrices of a template (lines 84-148).\<close>

definition project_mat ::
  "SlidingWindowTransform \<Rightarrow> externals \<Rightarrow> Template \<Rightarrow> Mat \<Rightarrow> Template list
     \<Rightarrow> (error + Template list) option" where
  "project_mat T E t m dst =
     (let img = cvtUChar E m in
      case scan T E img of
        None \<Rightarrow> None
      | Some (Inl e) \<Rightarrow> Some (Inl e)
      | Some (Inr v) \<Rightarrow>
          (case groupRectangles E (rects v) (rejectLevels v) (levelWeights v)
                  (minNeighbors T) (eps T) of
             (rs, rl, lw) \<Rightarrow>
               (let rs' = with_fallback (enrollAll (tfile t)) img rs
                in Some (emit (tfile t) img rs' rl lw [0 ..< length rs'] dst))))"

fun project_mats ::
  "SlidingWindowTransform \<Rightarrow> externals \<Rightarrow> Template \<Rightarrow> Mat list \<Rightarrow> Template list
     \<Rightarrow> (error + Template list) option" where
  "project_mats T E t [] dst = Some (Inr dst)"
| "project_mats T E t (m # ms) dst =
     (case project_mat T E t m dst of
        None \<Rightarrow> None
      | Some (Inl e) \<Rightarrow> Some (Inl e)
      | Some (Inr dst') \<Rightarrow> project_mats T E t ms dst')"

text \<open>\<open>project(const TemplateList &src, TemplateList &dst)\<close>: \<open>t.empty()\<close> is the list of
  matrices being empty.\<close>

fun project_list ::
  "SlidingWindowTransform \<Rightarrow> externals \<Rightarrow> Template list \<Rightarrow> Template list
     \<Rightarrow> (error + Template list) option" where
  "project_list T E [] dst = Some (Inr dst)"
| "project_list T E (t # ts) dst =
     (if mats t = [] \<and> \<not> enrollAll (tfile t) then project_list T E ts (dst @ [t])
      else
        (case project_mats T E t (mats t) dst of
           None \<Rightarrow> None
         | Some (Inl e) \<Rightarrow> Some (Inl e)
         | Some (Inr dst') \<Rightarrow> project_list T E ts dst'))"

text \<open>\<open>project(const Template &src, Template &dst)\<close> (lines 64-69).\<close>

definition project ::
  "SlidingWindowTransform \<Rightarrow> externals \<Rightarrow> Template \<Rightarrow> Template \<Rightarrow> (error + Template) option" where
  "project T E src dst =
     (case project_list T E [src] [] of
        None \<Rightarrow> None
      | Some (Inl e) \<Rightarrow> Some (Inl e)
      | Some (Inr temp) \<Rightarrow> Some (Inr (if temp \<noteq> [] then hd temp else dst)))"

subsection \<open>Loading and storing the model (lines 153-187)\<close>

text \<open>Both functions return \<open>void\<close> and throw nothing: what a caller can observe is the
  classifier afterwards and the warnings written with \<open>qWarning\<close>. The file system is a
  parameter: \<open>open_read\<close> gives the first top-level node of a file that can be opened for
  reading, \<open>open_write\<close> says whether a file can be opened for writing.\<close>

definition cascade_path :: "string \<Rightarrow> SlidingWindowTransform \<Rightarrow> string" where
  "cascade_path sdkPath T = sdkPath @ ''/share/openbr/models/openbrcascades/'' @ cascadeDir T"

definition load ::
  "(string \<Rightarrow> 'n option) \<Rightarrow> (Classifier \<Rightarrow> 'n \<Rightarrow> Classifier) \<Rightarrow> string
     \<Rightarrow> SlidingWindowTransform \<Rightarrow> SlidingWindowTransform \<times> string list" where
  "load open_read read sdkPath T =
     (let filename = cascade_path sdkPath T @ ''/cascade.xml'' in
      case open_read filename of
        None \<Rightarrow> (T, [])
      | Some node \<Rightarrow> (T\<lparr>classifier := read (classifier T) node\<rparr>, []))"

definition store ::
  "(string \<Rightarrow> bool) \<Rightarrow> (Classifier \<Rightarrow> 'w) \<Rightarrow> string \<Rightarrow> SlidingWindowTransform
     \<Rightarrow> (string \<times> 'w) option \<times> string list" where
  "store open_write write sdkPath T =
     (let filename = cascade_path sdkPath T @ ''/cascade.xml'' in
      if \<not> open_write filename then (None, [''Unable to open file: '' @ filename])
      else (Some (filename, write (classifier T)), []))"

subsection \<open>The windows a level scan visits\<close>

text \<open>These functions are not in the source: they describe, for the theorems below, which
  window origins a raster scan that returns has passed to the classifier.
  \<open>origins_from st n x\<close> is \<open>x, x + st, x + 2 * st, ...\<close> below \<open>n\<close>; \<open>score_at\<close> is the score of
  the window at an origin; a row starts at 0 and, when the window at 0 scores exactly 0,
  leaves out the origin \<open>yStep\<close>.\<close>

function origins_from :: "int \<Rightarrow> int \<Rightarrow> int \<Rightarrow> int list" where
  "origins_from st n x = (if 0 < st \<and> x < n then x # origins_from st n (x + st) else [])"
  by pat_completeness auto
termination
  by (relation "measure (\<lambda>(st, n, x). nat (n - x))") auto

declare origins_from.simps [simp del]

definition score_at :: "Classifier \<Rightarrow> Mat \<Rightarrow> int \<Rightarrow> int \<Rightarrow> real" where
  "score_at c scaled x y = classify c (clone_region scaled x y (windowSize c))"

definition row_origins :: "Classifier \<Rightarrow> Mat \<Rightarrow> real \<Rightarrow> Size \<Rightarrow> int \<Rightarrow> int list" where
  "row_origins c scaled factor prs y =
     (if 0 < width prs then
        0 # (if score_at c scaled 0 y = 0
             then origins_from (yStep factor) (width prs) (2 * yStep factor)
             else origins_from (yStep factor) (width prs) (yStep factor))
      else [])"

definition level_origins :: "Classifier \<Rightarrow> Mat \<Rightarrow> real \<Rightarrow> Size \<Rightarrow> (int \<times> int) list" where
  "level_origins c scaled factor prs =
     concat (map (\<lambda>y. map (\<lambda>x. (x, y)) (row_origins c scaled factor prs y))
               (origins_from (yStep factor) (height prs) 0))"

definition positives :: "Classifier \<Rightarrow> Mat \<Rightarrow> (int \<times> int) list \<Rightarrow> (int \<times> int) list" where
  "positives c scaled ws = filter (\<lambda>(x, y). 0 < score_at c scaled x y) ws"

definition recorded :: "Classifier \<Rightarrow> Mat \<Rightarrow> real \<Rightarrow> (int \<times> int) list \<Rightarrow> Vectors \<Rightarrow> Vectors" where
  "recorded c scaled factor ws v =
     \<lparr>rects = rects v @ map (\<lambda>(x, y). candidate c factor x y) (positives c scaled ws),
      rejectLevels = rejectLevels v @ map (\<lambda>p. 1) (positives c scaled ws),
      levelWeights = levelWeights v @ map (\<lambda>(x, y). score_at c scaled x y) (positives c scaled ws)\<rparr>"

text \<open>The scale loop as the specification describes it: the levels at the given factors,
  scanned one after the other.\<close>

fun scan_factors ::
  "SlidingWindowTransform \<Rightarrow> externals \<Rightarrow> Mat \<Rightarrow> real list \<Rightarrow> uchar list \<Rightarrow> Vectors
     \<Rightarrow> (error + Vectors) option" where
  "scan_factors T E img [] buf v = Some (Inr v)"
| "scan_factors T E img (f # fs) buf v =
     (case scan_level T E img buf f v of
        None \<Rightarrow> None
      | Some (Inl e) \<Rightarrow> Some (Inl e)
      | Some (Inr (buf', v')) \<Rightarrow> scan_factors T E img fs buf' v')"

subsection \<open>Example inputs\<close>

text \<open>A classifier with a 2 x 2 window that gives every window the score \<open>s\<close>, a transform
  around it, a 4 x 4 image, and stand-ins for the external functions (a grouping that keeps
  every candidate).\<close>

definition ex_classifier :: "real \<Rightarrow> Classifier" where
  "ex_classifier s = \<lparr>windowSize = Size 2 2, classify = (\<lambda>w. s)\<rparr>"

definition ex_transform :: "real \<Rightarrow> int \<Rightarrow> real \<Rightarrow> SlidingWindowTransform" where
  "ex_transform s mn sf =
     \<lparr>classifier = ex_classifier s, minSize = mn, maxSize = - 1, scaleFactor = sf,
      minNeighbors = 1, eps = 1 / 5, cascadeDir = ''face''\<rparr>"

definition ex_externals :: externals where
  "ex_externals =
     \<lparr>resize = (\<lambda>m sz x y. 7), groupRectangles = (\<lambda>r l w n e. (r, l, w)),
      cvtUChar = (\<lambda>m. m), uninitialised = (\<lambda>n. 0)\<rparr>"

definition ex_image :: Mat where
  "ex_image = Mat 4 4 (replicate 16 3)"

definition ex_file :: File where
  "ex_file = \<lparr>name = ''a.png'', enrollAll = False, Confidence = None, Rects = [], Face = None\<rparr>"

definition ex_detection :: "Rect \<Rightarrow> Mat \<Rightarrow> Template" where
  "ex_detection r img =
     Template (ex_file\<lparr>Confidence := Some 1, Rects := [r], Face := Some r\<rparr>) [img]"

definition ex_gradient :: Mat where
  "ex_gradient = Mat 5 5 (map of_nat [0 ..< 25])"

definition ex_pixel_classifier :: Classifier where
  "ex_pixel_classifier =
     \<lparr>windowSize = Size 2 2, classify = (\<lambda>w. if hd (data w) = 12 then 1 else - 1)\<rparr>"


section \<open>Properties\<close>

subsection \<open>Evaluation on the example inputs\<close>

lemmas scan_eval =
  scan_def scale_loop.simps scan_level_def y_loop.simps x_loop.simps breaks_def skips_def windowSize_at_def
  scaledImageSize_def processingRectSize_def maxObjectSize_def minObjectSize_def cvRound_def
  imageBuffer_def resize_into_def window_at_def clone_region_def scan_window_def candidate_def
  push_back_def yStep_def no_vectors_def scaledImage_def Let_def upt_conv_Cons

lemmas ex_defs = ex_classifier_def ex_transform_def ex_externals_def ex_image_def

lemmas project_eval =
  project_mat_def with_fallback_def confidence_at_def output_record_def fromRect_def Let_def
  upt_conv_Cons

lemma ex_externals_simps:
  "cvtUChar ex_externals m = m"
  "groupRectangles ex_externals r l w n e = (r, l, w)"
  by (simp_all add: ex_externals_def)

lemma ex_scan_positive:
  "scan (ex_transform 1 2 (6 / 5)) ex_externals ex_image =
     Some (Inr \<lparr>rects = [Rect 0 0 2 2, Rect 0 0 2 2, Rect 0 0 3 3], rejectLevels = [1, 1, 1],
                levelWeights = [1, 1, 1]\<rparr>)"
  by (simp add: scan_eval ex_defs)

lemma ex_scan_negative:
  "scan (ex_transform (- 1) 2 (6 / 5)) ex_externals ex_image = Some (Inr no_vectors)"
  by (simp add: scan_eval ex_defs)

lemma ex_scan_zero_area:
  "scan (ex_transform 1 2 (6 / 5)) ex_externals (Mat 0 0 []) = Some (Inr no_vectors)"
  by (simp add: scan_eval ex_defs)

lemma ex_project_list_positive:
  "project_list (ex_transform 1 2 (6 / 5)) ex_externals [Template ex_file [ex_image]] [] =
     Some (Inr [ex_detection (Rect 0 0 2 2) ex_image, ex_detection (Rect 0 0 2 2) ex_image,
                ex_detection (Rect 0 0 3 3) ex_image])"
  by (simp add: ex_scan_positive project_eval ex_externals_simps ex_file_def ex_detection_def)

subsection \<open>Output records\<close>

lemma emit_parallel:
  "\<forall>j \<in> set js. j < length rl \<and> j < length lw \<Longrightarrow>
   emit f img rs rl lw js dst =
     Inr (dst @ map (\<lambda>j. output_record f img (rs ! j) (of_int (rl ! j) * lw ! j)) js)"
  by (induction js arbitrary: dst) (auto simp: confidence_at_def)

text \<open>
  C1. Once the scan of a matrix has returned and \<open>groupRectangles\<close> has left its three vectors
  with one entry per rectangle, the records appended for that matrix are: the single
  full-image record \<open>(0, 0, cols, rows)\<close> with confidence 1 when \<open>enrollAll\<close> is false and no
  rectangle survived the grouping; otherwise exactly one record per surviving rectangle and
  no full-image record, so nothing at all when \<open>enrollAll\<close> is true and none survived.
\<close>

theorem fallback_iff_not_enrollAll_and_no_cluster:
  assumes "scan T E (cvtUChar E m) = Some (Inr v)"
    and "groupRectangles E (rects v) (rejectLevels v) (levelWeights v) (minNeighbors T) (eps T)
           = (rs, rl, lw)"
    and "length rl = length rs" and "length lw = length rs"
  shows "project_mat T E t m dst =
     Some (Inr (dst @
       (if \<not> enrollAll (tfile t) \<and> rs = []
        then [output_record (tfile t) (cvtUChar E m)
                (Rect 0 0 (cols (cvtUChar E m)) (rows (cvtUChar E m))) 1]
        else map (\<lambda>j. output_record (tfile t) (cvtUChar E m) (rs ! j) (of_int (rl ! j) * lw ! j))
               [0 ..< length rs])))
     \<and> (enrollAll (tfile t) \<and> rs = [] \<longrightarrow> project_mat T E t m dst = Some (Inr dst))"
proof (cases "\<not> enrollAll (tfile t) \<and> rs = []")
  case True
  with assms show ?thesis
    by (simp add: project_mat_def with_fallback_def confidence_at_def Let_def)
next
  case False
  then have "with_fallback (enrollAll (tfile t)) (cvtUChar E m) rs = rs"
    by (auto simp: with_fallback_def)
  with assms False show ?thesis
    by (auto simp: project_mat_def emit_parallel Let_def with_fallback_def)
qed

theorem fallback_iff_not_enrollAll_and_no_cluster_witness:
  "project_mat (ex_transform (- 1) 2 (6 / 5)) ex_externals (Template ex_file [ex_image]) ex_image []
     = Some (Inr [ex_detection (Rect 0 0 4 4) ex_image])"
proof -
  have g: "groupRectangles ex_externals (rects no_vectors) (rejectLevels no_vectors)
             (levelWeights no_vectors) (minNeighbors (ex_transform (- 1) 2 (6 / 5)))
             (eps (ex_transform (- 1) 2 (6 / 5))) = ([], [], [])"
    by (simp add: ex_externals_simps no_vectors_def)
  have s: "scan (ex_transform (- 1) 2 (6 / 5)) ex_externals (cvtUChar ex_externals ex_image)
             = Some (Inr no_vectors)"
    by (simp add: ex_externals_simps ex_scan_negative)
  show ?thesis
    using fallback_iff_not_enrollAll_and_no_cluster
            [OF s g, of "Template ex_file [ex_image]" "[]"]
    by (simp add: ex_externals_simps ex_file_def ex_detection_def output_record_def fromRect_def
          ex_image_def Let_def)
qed

text \<open>
  C8 (as the claim states it). A template that holds one matrix of zero area, with
  \<open>enrollAll\<close> false, is not passed through: \<open>t.empty()\<close> is false for it, the matrix is scanned
  and grouped, and the record that comes out carries the rectangle \<open>(0, 0, 0, 0)\<close> and the
  confidence 1.
\<close>

theorem zero_area_matrix_is_not_skipped:
  "project_list (ex_transform 1 2 (6 / 5)) ex_externals [Template ex_file [Mat 0 0 []]] []
     = Some (Inr [ex_detection (Rect 0 0 0 0) (Mat 0 0 [])])
   \<and> project_list (ex_transform 1 2 (6 / 5)) ex_externals [Template ex_file [Mat 0 0 []]] []
     \<noteq> Some (Inr [Template ex_file [Mat 0 0 []]])
   \<and> \<not> enrollAll (tfile (Template ex_file [Mat 0 0 []]))"
  by (simp add: ex_scan_zero_area project_eval ex_externals_simps ex_file_def ex_detection_def
        no_vectors_def)

text \<open>
  C8 (amended). A template that holds no matrix at all (\<open>t.empty()\<close>), with \<open>enrollAll\<close> false,
  is appended to the output unchanged, whatever the transform and the external functions
  are: neither the scan nor the grouping runs.
\<close>

theorem empty_template_passes_through:
  "mats t = [] \<Longrightarrow> \<not> enrollAll (tfile t) \<Longrightarrow> project_list T E [t] dst = Some (Inr (dst @ [t]))"
  by simp

theorem empty_template_passes_through_witness:
  "mats (Template ex_file []) = [] \<and> \<not> enrollAll (tfile (Template ex_file []))
   \<and> project_list (ex_transform 1 2 (6 / 5)) ex_externals [Template ex_file []] []
       = Some (Inr [Template ex_file []])"
  using empty_template_passes_through
          [of "Template ex_file []" "ex_transform 1 2 (6 / 5)" ex_externals "[]"]
  by (simp add: ex_file_def)

text \<open>
  C10. The single-template \<open>project\<close> runs the list version on the one input and keeps the
  first record of the result; when the result is empty the destination is left as it was,
  as for a template without matrices whose \<open>enrollAll\<close> is true.
\<close>

theorem project_keeps_first_record:
  "(project_list T E [src] [] = Some (Inr temp) \<longrightarrow>
      project T E src dst = Some (Inr (case temp of [] \<Rightarrow> dst | u # us \<Rightarrow> u)))
   \<and> (mats src = [] \<and> enrollAll (tfile src) \<longrightarrow> project T E src dst = Some (Inr dst))"
  by (auto simp: project_def split: list.splits)

theorem project_keeps_first_record_witness:
  "project (ex_transform 1 2 (6 / 5)) ex_externals (Template ex_file [ex_image])
     (Template ex_file []) = Some (Inr (ex_detection (Rect 0 0 2 2) ex_image))
   \<and> project (ex_transform 1 2 (6 / 5)) ex_externals
        (Template (ex_file\<lparr>enrollAll := True\<rparr>) []) (Template ex_file [])
       = Some (Inr (Template ex_file []))"
  using project_keeps_first_record
          [THEN conjunct1, rule_format, OF ex_project_list_positive, of "Template ex_file []"]
        project_keeps_first_record
          [THEN conjunct2, rule_format,
           of "Template (ex_file\<lparr>enrollAll := True\<rparr>) []" "ex_transform 1 2 (6 / 5)"
              ex_externals "Template ex_file []"]
  by simp

subsection \<open>The inner raster scan\<close>

text \<open>
  C3. At a window that the classifier scores exactly 0, the loop body leaves \<open>x\<close> equal to the
  step (1 if \<open>factor > 2\<close>, else 2) and records nothing, so the scan goes on from twice the
  step; at a window scored below 0 the body changes neither \<open>x\<close> nor the vectors, so the scan
  goes on from \<open>x\<close> plus the step.
\<close>

theorem zero_score_sets_x_to_step:
  assumes "window_at scaled x y (windowSize c) = Inr w"
  shows "(classify c w = 0 \<longrightarrow>
            scan_window c scaled factor y x v = Inr (yStep factor, v)
            \<and> (x < width prs \<longrightarrow>
                 x_loop c scaled factor prs y x v
                   = x_loop c scaled factor prs y (yStep factor + yStep factor) v))
       \<and> (classify c w < 0 \<longrightarrow>
            scan_window c scaled factor y x v = Inr (x, v)
            \<and> (x < width prs \<longrightarrow>
                 x_loop c scaled factor prs y x v
                   = x_loop c scaled factor prs y (x + yStep factor) v))
       \<and> yStep factor = (if factor > 2 then 1 else 2)"
proof -
  have z: "scan_window c scaled factor y x v = Inr (yStep factor, v)" if "classify c w = 0"
    using that assms by (simp add: scan_window_def)
  have n: "scan_window c scaled factor y x v = Inr (x, v)" if "classify c w < 0"
    using that assms by (simp add: scan_window_def)
  show ?thesis
    using z n by (subst (1 3) x_loop.simps) (auto simp: yStep_def)
qed

lemma ex_window:
  "window_at ex_image 0 0 (windowSize (ex_classifier s)) = Inr (clone_region ex_image 0 0 (Size 2 2))"
  by (simp add: window_at_def ex_classifier_def ex_image_def)

theorem zero_score_sets_x_to_step_witness:
  "scan_window (ex_classifier 0) ex_image 1 0 0 no_vectors = Inr (2, no_vectors)
   \<and> x_loop (ex_classifier 0) ex_image 1 (Size 2 2) 0 0 no_vectors
       = x_loop (ex_classifier 0) ex_image 1 (Size 2 2) 0 4 no_vectors
   \<and> scan_window (ex_classifier (- 1)) ex_image 1 0 0 no_vectors = Inr (0, no_vectors)
   \<and> x_loop (ex_classifier (- 1)) ex_image 1 (Size 2 2) 0 0 no_vectors
       = x_loop (ex_classifier (- 1)) ex_image 1 (Size 2 2) 0 2 no_vectors"
  using zero_score_sets_x_to_step [OF ex_window, of 0 1 no_vectors "Size 2 2"]
        zero_score_sets_x_to_step [OF ex_window, of "- 1" 1 no_vectors "Size 2 2"]
  by (simp add: ex_classifier_def)

subsection \<open>Loading and storing\<close>

lemma store_unwritable_warns:
  "store (\<lambda>p. False) write sdkPath T =
     (None, [''Unable to open file: '' @ cascade_path sdkPath T @ ''/cascade.xml''])"
  by (simp add: store_def)

text \<open>
  C7. With a model file that cannot be opened, \<open>load\<close> returns the transform as it was and
  writes no warning: nothing tells the caller that no model was read. (\<open>store\<close> warns in the
  same situation.)
\<close>

theorem load_unreadable_is_silent:
  "load (\<lambda>p. None) read sdkPath T = (T, [])"
  by (simp add: load_def)

subsection \<open>An induction rule for the row scan\<close>


subsection \<open>What a level scan records\<close>

lemma recorded_Nil [simp]: "recorded c sc f [] v = v"
  by (simp add: recorded_def positives_def)















lemma origins_from_eval:
  "origins_from st n 0 = (if 0 < st \<and> 0 < n then 0 # origins_from st n (0 + st) else [])"
  "origins_from st n (numeral k) =
     (if 0 < st \<and> numeral k < n then numeral k # origins_from st n (numeral k + st) else [])"
  by (rule origins_from.simps)+

lemmas origins_eval =
  level_origins_def row_origins_def score_at_def positives_def origins_from_eval


lemma ex_positives:
  "positives ex_pixel_classifier ex_gradient [(0, 0), (2, 0), (0, 2), (2, 2)] = [(2, 2)]"
  by (simp add: origins_eval yStep_def ex_pixel_classifier_def ex_gradient_def clone_region_def upt_conv_Cons)



subsection \<open>The scale loop\<close>

lemma scale_loop_partial [consumes 1, case_names break skip fault step]:
  assumes run: "scale_loop T E img buf f v = Some r"
    and break: "\<And>buf f v. breaks T img f \<Longrightarrow> P buf f v (Inr v)"
    and skip: "\<And>buf f v r. \<not> breaks T img f \<Longrightarrow> skips T f
             \<Longrightarrow> scale_loop T E img buf (f * scaleFactor T) v = Some r
             \<Longrightarrow> P buf (f * scaleFactor T) v r \<Longrightarrow> P buf f v r"
    and fault: "\<And>buf f v e. \<not> breaks T img f \<Longrightarrow> \<not> skips T f
             \<Longrightarrow> scan_level T E img buf f v = Some (Inl e) \<Longrightarrow> P buf f v (Inl e)"
    and step: "\<And>buf f v buf' v' r. \<not> breaks T img f \<Longrightarrow> \<not> skips T f
             \<Longrightarrow> scan_level T E img buf f v = Some (Inr (buf', v'))
             \<Longrightarrow> scale_loop T E img buf' (f * scaleFactor T) v' = Some r
             \<Longrightarrow> P buf' (f * scaleFactor T) v' r \<Longrightarrow> P buf f v r"
  shows "P buf f v r"
proof -
  let ?Q = "\<lambda>T' E' img' buf f v r. T' = T \<and> E' = E \<and> img' = img
              \<longrightarrow> scale_loop T E img buf f v = Some r \<and> P buf f v r"
  have "?Q T E img buf f v r"
  proof (rule scale_loop.raw_induct [where P = ?Q, OF _ run])
    fix sl T' E' img' buf f v r
    assume IH: "\<And>a b d e g h ya. sl a b d e g h = Some ya \<Longrightarrow> ?Q a b d e g h ya"
      and body: "(if breaks T' img' f then Some (Inr v)
           else if skips T' f then sl T' E' img' buf (f * scaleFactor T') v
           else case scan_level T' E' img' buf f v of
                  None \<Rightarrow> None
                | Some (Inl e) \<Rightarrow> Some (Inl e)
                | Some (Inr (buf', v')) \<Rightarrow> sl T' E' img' buf' (f * scaleFactor T') v') = Some r"
    show "?Q T' E' img' buf f v r"
    proof (intro impI, elim conjE)
      assume eqs: "T' = T" "E' = E" "img' = img"
      show "scale_loop T E img buf f v = Some r \<and> P buf f v r"
      proof (cases "breaks T img f")
        case True
        with body eqs have "r = Inr v" by simp
        with True break show ?thesis by (subst scale_loop.simps) simp
      next
        case nb: False
        show ?thesis
        proof (cases "skips T f")
          case True
          with body eqs nb have "sl T E img buf (f * scaleFactor T) v = Some r" by simp
          from IH [OF this]
          have rec: "scale_loop T E img buf (f * scaleFactor T) v = Some r"
            "P buf (f * scaleFactor T) v r" by simp_all
          have "P buf f v r" by (rule skip [OF nb True rec])
          moreover have "scale_loop T E img buf f v = Some r"
            using nb True rec(1) by (subst scale_loop.simps) simp
          ultimately show ?thesis by simp
        next
          case ns: False
          show ?thesis
          proof (cases "scan_level T E img buf f v")
            case None
            with body eqs nb ns show ?thesis by simp
          next
            case (Some res)
            show ?thesis
            proof (cases res)
              case (Inl e)
              with body eqs nb ns Some have "r = Inl e" by simp
              moreover have "scale_loop T E img buf f v = Some (Inl e)"
                using nb ns Some Inl by (subst scale_loop.simps) simp
              ultimately show ?thesis using fault [OF nb ns] Some Inl by simp
            next
              case (Inr p)
              obtain buf' v' where p: "p = (buf', v')" by (cases p)
              with body eqs nb ns Some Inr
              have "sl T E img buf' (f * scaleFactor T) v' = Some r" by simp
              from IH [OF this]
              have rec: "scale_loop T E img buf' (f * scaleFactor T) v' = Some r"
                "P buf' (f * scaleFactor T) v' r" by simp_all
              have "P buf f v r" using step [OF nb ns _ rec] Some Inr p by simp
              moreover have "scale_loop T E img buf f v = Some r"
                using nb ns Some Inr p rec(1) by (subst scale_loop.simps) simp
              ultimately show ?thesis by simp
            qed
          qed
        qed
      qed
    qed
  qed
  then show ?thesis by simp
qed

lemma scale_loop_unroll:
  assumes "breaks T img (f0 * scaleFactor T ^ k)"
    and "\<forall>i<k. \<not> breaks T img (f0 * scaleFactor T ^ i)"
  shows "scale_loop T E img buf f0 v =
           scan_factors T E img
             (filter (\<lambda>f. \<not> skips T f) (map (\<lambda>i. f0 * scaleFactor T ^ i) [0 ..< k])) buf v"
  using assms
proof (induction k arbitrary: f0 buf v)
  case 0
  then show ?case by (subst scale_loop.simps) simp
next
  case (Suc k)
  have nb: "\<not> breaks T img f0" using Suc.prems(2) [rule_format, of 0] by simp
  have b': "breaks T img (f0 * scaleFactor T * scaleFactor T ^ k)"
    using Suc.prems(1) by (simp add: mult.assoc)
  have nb': "\<forall>i<k. \<not> breaks T img (f0 * scaleFactor T * scaleFactor T ^ i)"
  proof (intro allI impI)
    fix i assume "i < k"
    then show "\<not> breaks T img (f0 * scaleFactor T * scaleFactor T ^ i)"
      using Suc.prems(2) [rule_format, of "Suc i"] by (simp add: mult.assoc)
  qed
  note IH = Suc.IH [OF b' nb']
  have factors: "map (\<lambda>i. f0 * scaleFactor T ^ i) [0 ..< Suc k]
      = f0 # map (\<lambda>i. f0 * scaleFactor T * scaleFactor T ^ i) [0 ..< k]"
    by (simp add: upt_conv_Cons map_Suc_upt [symmetric] mult.assoc del: upt_Suc)
  show ?case
    unfolding factors
    by (subst scale_loop.simps) (simp add: nb IH split: option.splits sum.splits)
qed

lemma scale_loop_stuck:
  assumes "scale_loop T E img buf f v = Some r" and "scaleFactor T = 1" and "\<not> breaks T img f"
  shows "(\<exists>e. r = Inl e) \<and> \<not> skips T f"
  using assms(1,3)
proof (induction buf f v r rule: scale_loop_partial)
  case (break buf f v)
  then show ?case by simp
next
  case (skip buf f v r)
  then show ?case using assms(2) by simp
next
  case (fault buf f v e)
  then show ?case by simp
next
  case (step buf f v buf' v' r)
  then show ?case using assms(2) by simp
qed

subsection \<open>Rounding, and when the scale loop ends\<close>

lemma cvRound_le: "of_int (cvRound v) \<le> v + 1 / 2"
  unfolding cvRound_def Let_def by (auto; linarith)

lemma cvRound_ge: "v - 1 / 2 \<le> of_int (cvRound v)"
  unfolding cvRound_def Let_def by (auto; linarith)

lemma cvRound_zero: "\<bar>v\<bar> < 1 / 2 \<Longrightarrow> cvRound v = 0"
proof -
  assume a: "\<bar>v\<bar> < 1 / 2"
  have "real_of_int (cvRound v) < 1" "- 1 < real_of_int (cvRound v)"
    using cvRound_le [of v] cvRound_ge [of v] a by linarith+
  then have "cvRound v < 1" "- 1 < cvRound v" by linarith+
  then show ?thesis by simp
qed

lemma cvRound_scaled_back:
  assumes "0 < f" and "w < cvRound (of_int W / f)"
  shows "cvRound (of_int w * f) \<le> W"
proof -
  have "real_of_int w + 1 \<le> of_int (cvRound (of_int W / f))"
    using assms(2) by linarith
  with cvRound_le [of "of_int W / f"] have "real_of_int w + 1 / 2 \<le> of_int W / f" by linarith
  with assms(1) have "(real_of_int w + 1 / 2) * f \<le> of_int W"
    by (simp add: pos_le_divide_eq)
  then have "of_int w * f + f / 2 \<le> of_int W" by (simp add: algebra_simps)
  with assms(1) cvRound_le [of "of_int w * f"]
  have "real_of_int (cvRound (of_int w * f)) < of_int W + 1" by linarith
  then have "real_of_int (cvRound (of_int w * f)) < of_int (W + 1)" by simp
  then have "cvRound (of_int w * f) < W + 1" by (simp only: of_int_less_iff)
  then show ?thesis by simp
qed

lemma small_image_skips:
  assumes "\<not> breaks T img f" and "0 < f" and "cols img < minSize T \<or> rows img < minSize T"
  shows "skips T f"
proof -
  from assms(1) have
    w: "width (windowSize (classifier T)) < cvRound (of_int (cols img) / f)" and
    h: "height (windowSize (classifier T)) < cvRound (of_int (rows img) / f)"
    by (simp_all add: breaks_def processingRectSize_def scaledImageSize_def Let_def)
  from cvRound_scaled_back [OF assms(2) w] cvRound_scaled_back [OF assms(2) h] assms(3)
  show ?thesis
    by (auto simp: skips_def windowSize_at_def minObjectSize_def Let_def)
qed

lemma large_factor_breaks:
  assumes "1 < s" and "0 \<le> width (windowSize (classifier T)) \<or> 0 \<le> height (windowSize (classifier T))"
  shows "\<exists>k. breaks T img (s ^ k)"
proof -
  obtain k where k: "2 * \<bar>real_of_int (cols img)\<bar> + 2 * \<bar>real_of_int (rows img)\<bar> < s ^ k"
    using real_arch_pow [OF assms(1)] by blast
  have pos: "0 < s ^ k" using assms(1) by simp
  have "\<bar>real_of_int (cols img) / s ^ k\<bar> < 1 / 2" "\<bar>real_of_int (rows img) / s ^ k\<bar> < 1 / 2"
    using k pos by (simp_all add: abs_divide pos_divide_less_eq)
  then have "cvRound (real_of_int (cols img) / s ^ k) = 0" "cvRound (real_of_int (rows img) / s ^ k) = 0"
    by (simp_all add: cvRound_zero)
  with assms(2) have "breaks T img (s ^ k)"
    by (auto simp: breaks_def processingRectSize_def scaledImageSize_def Let_def)
  then show ?thesis ..
qed

lemma scan_factors_all_skipped:
  assumes "1 < scaleFactor T"
    and "0 \<le> width (windowSize (classifier T)) \<or> 0 \<le> height (windowSize (classifier T))"
    and "cols img < minSize T \<or> rows img < minSize T"
  shows "scan T E img = Some (Inr no_vectors)"
proof -
  define k where "k = (LEAST k. breaks T img (scaleFactor T ^ k))"
  from large_factor_breaks [OF assms(1,2)] have b: "breaks T img (scaleFactor T ^ k)"
    unfolding k_def by (rule LeastI_ex)
  have nb: "\<forall>i<k. \<not> breaks T img (scaleFactor T ^ i)"
    unfolding k_def using not_less_Least by blast
  have "filter (\<lambda>f. \<not> skips T f) (map (\<lambda>i. 1 * scaleFactor T ^ i) [0 ..< k]) = []"
  proof -
    have "skips T (scaleFactor T ^ i)" if "i < k" for i
      using small_image_skips [of T img "scaleFactor T ^ i"] nb that assms(1,3) by simp
    then show ?thesis by (auto simp: filter_empty_conv)
  qed
  with scale_loop_unroll [of T img 1 k E "imageBuffer E img" no_vectors] b nb
  show ?thesis by (simp add: scan_def)
qed

lemma scale_loop_skip_forever:
  assumes "scaleFactor T = 1" and "\<not> breaks T img f" and "skips T f"
  shows "scale_loop T E img buf f v = None"
proof (cases "scale_loop T E img buf f v")
  case (Some r)
  from scale_loop_stuck [OF Some assms(1,2)] assms(3) show ?thesis by simp
qed simp

text \<open>
  C6 (as the claim states it). With \<open>scaleFactor = 1\<close> the factor stays at 1. On the 4 x 4
  example image with a 2 x 2 window and \<open>minSize = 3\<close>, factor 1 meets neither \<open>break\<close> test and
  is skipped by the \<open>continue\<close> test, again and again: the scale loop never returns.
\<close>

theorem scaleFactor_one_never_returns:
  "scaleFactor (ex_transform (- 1) 3 1) \<le> 1
   \<and> scan (ex_transform (- 1) 3 1) ex_externals ex_image = None"
proof -
  have "\<not> breaks (ex_transform (- 1) 3 1) ex_image 1" "skips (ex_transform (- 1) 3 1) 1"
    by (simp_all add: scan_eval ex_defs)
  from scale_loop_skip_forever [OF _ this] show ?thesis
    by (simp add: scan_def ex_transform_def)
qed

text \<open>
  C6 (amended). With \<open>scaleFactor > 1\<close> and a native window that is not negative in both
  dimensions, some factor of the sequence meets a \<open>break\<close> test; if moreover \<open>minSize\<close> exceeds
  the image in width or in height, every factor before it is skipped and the scan returns
  with no candidate. With \<open>scaleFactor = 1\<close> the scan returns (with no candidate) when factor
  1 meets a \<open>break\<close> test, and otherwise never returns a candidate set.
\<close>

theorem scale_loop_termination:
  "(1 < scaleFactor T
      \<and> (0 \<le> width (windowSize (classifier T)) \<or> 0 \<le> height (windowSize (classifier T)))
      \<longrightarrow> (\<exists>k. breaks T img (scaleFactor T ^ k))
          \<and> (cols img < minSize T \<or> rows img < minSize T \<longrightarrow> scan T E img = Some (Inr no_vectors)))
   \<and> (scaleFactor T = 1 \<and> breaks T img 1 \<longrightarrow> scan T E img = Some (Inr no_vectors))
   \<and> (scaleFactor T = 1 \<and> \<not> breaks T img 1 \<longrightarrow> (\<forall>v. scan T E img \<noteq> Some (Inr v)))"
proof (intro conjI impI allI)
  assume "1 < scaleFactor T
      \<and> (0 \<le> width (windowSize (classifier T)) \<or> 0 \<le> height (windowSize (classifier T)))"
  then show "\<exists>k. breaks T img (scaleFactor T ^ k)"
    using large_factor_breaks by blast
next
  assume "1 < scaleFactor T
      \<and> (0 \<le> width (windowSize (classifier T)) \<or> 0 \<le> height (windowSize (classifier T)))"
    and "cols img < minSize T \<or> rows img < minSize T"
  then show "scan T E img = Some (Inr no_vectors)"
    using scan_factors_all_skipped by blast
next
  assume "scaleFactor T = 1 \<and> breaks T img 1"
  then show "scan T E img = Some (Inr no_vectors)"
    unfolding scan_def by (subst scale_loop.simps) simp
next
  fix v
  assume "scaleFactor T = 1 \<and> \<not> breaks T img 1"
  then show "scan T E img \<noteq> Some (Inr v)"
    using scale_loop_stuck [of T E img "imageBuffer E img" 1 no_vectors "Inr v"]
    by (auto simp: scan_def)
qed

theorem scale_loop_termination_witness:
  "scan (ex_transform 1 5 (6 / 5)) ex_externals ex_image = Some (Inr no_vectors)
   \<and> scan (ex_transform 1 2 1) ex_externals (Mat 1 1 [3]) = Some (Inr no_vectors)
   \<and> scan (ex_transform 1 2 1) ex_externals ex_image
        \<noteq> Some (Inr \<lparr>rects = [Rect 0 0 2 2], rejectLevels = [1], levelWeights = [1]\<rparr>)"
proof -
  have a: "1 < scaleFactor (ex_transform 1 5 (6 / 5))
      \<and> (0 \<le> width (windowSize (classifier (ex_transform 1 5 (6 / 5))))
         \<or> 0 \<le> height (windowSize (classifier (ex_transform 1 5 (6 / 5)))))"
    "cols ex_image < minSize (ex_transform 1 5 (6 / 5)) \<or> rows ex_image < minSize (ex_transform 1 5 (6 / 5))"
    by (simp_all add: ex_defs)
  have b: "scaleFactor (ex_transform 1 2 1) = 1 \<and> breaks (ex_transform 1 2 1) (Mat 1 1 [3]) 1"
    by (simp add: scan_eval ex_defs)
  have c: "scaleFactor (ex_transform 1 2 1) = 1 \<and> \<not> breaks (ex_transform 1 2 1) ex_image 1"
    by (simp add: scan_eval ex_defs)
  show ?thesis
    using scale_loop_termination [THEN conjunct1, rule_format, OF a(1), THEN conjunct2, rule_format, OF a(2), of ex_externals]
      scale_loop_termination [THEN conjunct2, THEN conjunct1, rule_format, OF b, of ex_externals]
      scale_loop_termination [THEN conjunct2, THEN conjunct2, rule_format, OF c, of ex_externals]
    by simp
qed





subsection \<open>The scratch buffer does not influence the scan\<close>

lemma length_rows:
  "length (concat (map (\<lambda>j. map (g j) [0 ..< w]) [0 ..< h])) = h * w"
  by (induction h) simp_all

lemma resize_into_independent:
  assumes "resize E2 = resize E1" and "length b2 = length b1"
  shows "case resize_into E1 img b1 sz of
           Inl e \<Rightarrow> resize_into E2 img b2 sz = Inl e
         | Inr b1' \<Rightarrow> (\<exists>b2'. resize_into E2 img b2 sz = Inr b2' \<and> length b2' = length b1'
                           \<and> scaledImage b2' sz = scaledImage b1' sz)"
proof (cases "width sz \<le> 0 \<or> height sz \<le> 0 \<or> int (length b1) < width sz * height sz")
  case True
  with assms show ?thesis by (auto simp: resize_into_def)
next
  case False
  then have n: "nat (width sz * height sz) = nat (height sz) * nat (width sz)"
    by (simp add: nat_mult_distrib mult.commute)
  from False assms n show ?thesis
    by (simp add: resize_into_def scaledImage_def length_rows)
qed



lemma scan_level_independent:
  assumes "resize E2 = resize E1" and "length b2 = length b1"
  shows "case scan_level T E1 img b1 f v of
           None \<Rightarrow> scan_level T E2 img b2 f v = None
         | Some (Inl e) \<Rightarrow> scan_level T E2 img b2 f v = Some (Inl e)
         | Some (Inr (b1', v')) \<Rightarrow>
             (\<exists>b2'. scan_level T E2 img b2 f v = Some (Inr (b2', v')) \<and> length b2' = length b1')"
proof (cases "resize_into E1 img b1 (scaledImageSize img f)")
  case (Inl e)
  with resize_into_independent [OF assms, of img "scaledImageSize img f"]
  show ?thesis by (simp add: scan_level_def)
next
  case (Inr b1')
  with resize_into_independent [OF assms, of img "scaledImageSize img f"]
  obtain b2' where b2': "resize_into E2 img b2 (scaledImageSize img f) = Inr b2'"
    "length b2' = length b1'"
    "scaledImage b2' (scaledImageSize img f) = scaledImage b1' (scaledImageSize img f)"
    by auto
  show ?thesis
    by (simp add: scan_level_def Inr b2' split: option.split sum.split)
qed


lemma scale_loop_independent_Some:
  assumes "scale_loop T E1 img b1 f v = Some r" and "resize E2 = resize E1"
    and "length b2 = length b1"
  shows "scale_loop T E2 img b2 f v = Some r"
  using assms(1,3)
proof (induction b1 f v r arbitrary: b2 rule: scale_loop_partial)
  case (break buf f v)
  then show ?case by (subst scale_loop.simps) simp
next
  case (skip buf f v r)
  then show ?case by (subst scale_loop.simps) simp
next
  case (fault buf f v e)
  with scan_level_independent [OF assms(2), of b2 buf T img f v]
  show ?case by (subst scale_loop.simps) simp
next
  case (step buf f v buf' v' r)
  from scan_level_independent [OF assms(2) step.prems, of T img f v] step.hyps(3)
  obtain b2' where b2': "scan_level T E2 img b2 f v = Some (Inr (b2', v'))"
    "length b2' = length buf'"
    by auto
  from step.IH [OF b2'(2)] step.hyps(1,2) b2'(1) show ?case
    by (subst scale_loop.simps) simp
qed

lemma scan_independent:
  assumes "resize E2 = resize E1"
  shows "scan T E2 img = scan T E1 img"
proof -
  have len: "length (imageBuffer E2 img) = length (imageBuffer E1 img)"
    by (simp add: imageBuffer_def)
  show ?thesis
  proof (cases "scan T E1 img")
    case (Some r)
    with scale_loop_independent_Some [OF _ assms len] show ?thesis by (simp add: scan_def)
  next
    case None
    show ?thesis
    proof (cases "scan T E2 img")
      case (Some r)
      with scale_loop_independent_Some [OF _ assms [symmetric] len [symmetric]] None
      show ?thesis by (simp add: scan_def)
    qed (simp add: None)
  qed
qed

text \<open>
  C9. The candidates found by the scanner are a function of the image, the scan parameters
  and the classifier alone. The one piece of state that could differ between two runs, the
  contents of the freshly allocated scratch buffer, has no influence: whatever it holds,
  the scan gives the same rectangles, reject levels and weights in the same order (or
  fails, or fails to return, in the same way).
\<close>

theorem scan_deterministic:
  "scan T (E\<lparr>uninitialised := garbage\<rparr>) img = scan T E img"
  by (rule scan_independent) simp

subsection \<open>Rectangles inside the image\<close>















end
